theory Spec2Isabelle
  imports Main "HOL-Library.AList"
begin

section \<open>Data model\<close>

text \<open>
  A Python \<^verbatim>\<open>dict\<close> from integer price to integer quantity is an association list in
  insertion order: \<^verbatim>\<open>d[k] = v\<close> is \<open>AList.update\<close> (an existing key keeps its place, a new
  key goes to the end), \<^verbatim>\<open>d.pop(k, None)\<close> is \<open>AList.delete\<close>, \<^verbatim>\<open>d.get(k, v)\<close> and
  \<^verbatim>\<open>d[k]\<close> read through \<open>map_of\<close>. Prices and quantities are Python integers
  (unbounded), so they are \<open>int\<close>.
\<close>

type_synonym levels = "(int \<times> int) list"

text \<open>The dataclass \<^verbatim>\<open>PriceLevel(price, quantity)\<close> of OrderBook.py.\<close>

datatype PriceLevel = PriceLevel int int

text \<open>
  Every \<^verbatim>\<open>raise\<close> of OrderBook.py and MarketDataService.py. All but the built-in ones are
  \<^verbatim>\<open>ValueError\<close> in the source and differ by their message; one constructor stands for
  each raise site.
  \<^item> \<open>TickerRequired\<close>: "ticker is required" (\<^verbatim>\<open>OrderBook.__init__\<close>)
  \<^item> \<open>MissingFields\<close>: "Delta message missing required fields" (\<^verbatim>\<open>OrderBook.update\<close>)
  \<^item> \<open>InvalidSide\<close>: "side must be either 'yes' or 'no'" (\<^verbatim>\<open>_update_side\<close>)
  \<^item> \<open>NegativeQuantity\<close>: "Quantity cannot be negative" (\<^verbatim>\<open>_update_side\<close>)
  \<^item> \<open>MalformedMessage\<close>: "No message type / channel specified in ..." (\<^verbatim>\<open>process_message\<close>)
  \<^item> \<open>UnknownMarket t\<close>: "Received delta before snapshot for t" (\<^verbatim>\<open>_process_orderbook_delta\<close>)
  \<^item> \<open>MissingSequence c\<close>: "Missing sequence number in c update" (\<^verbatim>\<open>_check_sequence\<close>)
  \<^item> \<open>SequenceGap c e g\<close>: "Missing sequence number for c channel. Expected e, got g"
  \<^item> \<open>EmptySequence\<close>: the \<^verbatim>\<open>ValueError\<close> of the built-ins \<^verbatim>\<open>max\<close> and \<^verbatim>\<open>min\<close> on an empty
    argument
  \<^item> \<open>KeyErrorPrice k\<close>, \<open>KeyErrorChannel c\<close>: the \<^verbatim>\<open>KeyError\<close> of \<^verbatim>\<open>d[k]\<close> on a missing key
\<close>

datatype error =
    TickerRequired
  | MissingFields
  | InvalidSide
  | NegativeQuantity
  | MalformedMessage
  | UnknownMarket string
  | MissingSequence string
  | SequenceGap string int int
  | EmptySequence
  | KeyErrorPrice int
  | KeyErrorChannel string

text \<open>
  The value under \<^verbatim>\<open>'yes'\<close> or \<^verbatim>\<open>'no'\<close> of a snapshot: a list of \<^verbatim>\<open>[price, quantity]\<close>
  pairs (from the feed) or a dict (a record read back from the replication topic), given
  by its items.
\<close>

datatype orders = OrderList "(int \<times> int) list" | OrderDict "(int \<times> int) list"

text \<open>
  The payload dict under \<^verbatim>\<open>'msg'\<close>; each field is the key of the same name without the
  prefix, \<open>None\<close> when the key is absent (what \<^verbatim>\<open>dict.get\<close> returns).
\<close>

record content =
  msg_market_ticker :: "string option"
  msg_yes :: "orders option"
  msg_no :: "orders option"
  msg_side :: "string option"
  msg_price :: "int option"
  msg_delta :: "int option"

text \<open>
  What a replication message holds. The dict literal
  \<^verbatim>\<open>{'market_ticker': self.ticker, 'yes': self.yes_levels, 'no': self.no_levels}\<close>
  holds the ticker (an immutable string) and the two dict objects of the book themselves,
  not copies of them: \<open>OwnYes\<close> and \<open>OwnNo\<close> are these two objects, which
  \<^verbatim>\<open>_update_side\<close> mutates in place and never rebinds. \<open>Lit d\<close> is a dict object of
  the message's own. A message is read (\<open>serialize\<close>) when the producer sends it.
\<close>

datatype dict_ref = OwnYes | OwnNo | Lit levels

type_synonym orderbook_dict = "string \<times> dict_ref \<times> dict_ref"

text \<open>A message as the producer's \<^verbatim>\<open>value_serializer\<close> (\<^verbatim>\<open>json.dumps\<close>) writes it to the topic.\<close>

type_synonym sent_record = "string \<times> levels \<times> levels"

text \<open>
  The attributes of an \<^verbatim>\<open>OrderBook\<close> object. \<open>producer\<close> is \<open>False\<close> for
  \<^verbatim>\<open>self.producer is None\<close> and \<open>True\<close> for a started producer; \<open>sent\<close> is the trace
  of this producer's \<^verbatim>\<open>send_and_wait\<close> calls on the topic \<^verbatim>\<open>orderbook.<ticker>\<close>, oldest
  first. The logger is not modelled.
\<close>

record OrderBook =
  ticker :: string
  yes_levels :: levels
  no_levels :: levels
  best_yes :: "PriceLevel option"
  best_no :: "PriceLevel option"
  producer :: bool
  should_publish :: bool
  pending_messages :: "orderbook_dict list"
  sent :: "sent_record list"

section \<open>OrderBook.py\<close>

text \<open>The built-ins \<^verbatim>\<open>max\<close> and \<^verbatim>\<open>min\<close> on a sequence of integers.\<close>

definition py_max :: "int list \<Rightarrow> error + int" where
  "py_max ks = (case ks of [] \<Rightarrow> Inl EmptySequence
                | k # ks' \<Rightarrow> Inr (fold (\<lambda>x m. if m < x then x else m) ks' k))"

definition py_min :: "int list \<Rightarrow> error + int" where
  "py_min ks = (case ks of [] \<Rightarrow> Inl EmptySequence
                | k # ks' \<Rightarrow> Inr (fold (\<lambda>x m. if x < m then x else m) ks' k))"

text \<open>\<^verbatim>\<open>d[k]\<close> and \<^verbatim>\<open>d.get(k, 0)\<close>.\<close>

definition getitem :: "levels \<Rightarrow> int \<Rightarrow> error + int" where
  "getitem d k = (case map_of d k of None \<Rightarrow> Inl (KeyErrorPrice k) | Some v \<Rightarrow> Inr v)"

definition get_or_zero :: "levels \<Rightarrow> int \<Rightarrow> int" where
  "get_or_zero d k = (case map_of d k of None \<Rightarrow> 0 | Some v \<Rightarrow> v)"

text \<open>
  One half of \<^verbatim>\<open>_update_top_of_book\<close>: \<^verbatim>\<open>None\<close> for an empty dict, otherwise
  \<^verbatim>\<open>PriceLevel(price, size)\<close> with \<^verbatim>\<open>price = max(levels.keys())\<close> (or \<^verbatim>\<open>min\<close>) and
  \<^verbatim>\<open>size = levels[price]\<close>.
\<close>

definition best_level :: "(int list \<Rightarrow> error + int) \<Rightarrow> levels \<Rightarrow> error + PriceLevel option" where
  "best_level pick lv =
     (if lv = [] then Inr None
      else case pick (map fst lv) of
             Inl e \<Rightarrow> Inl e
           | Inr p \<Rightarrow> (case getitem lv p of
                         Inl e \<Rightarrow> Inl e
                       | Inr sz \<Rightarrow> Inr (Some (PriceLevel p sz))))"

text \<open>
  \<^verbatim>\<open>OrderBook._update_top_of_book\<close>. Methods that mutate \<^verbatim>\<open>self\<close> return the exception
  raised, if any, together with the object as the call leaves it.
\<close>

definition update_top_of_book :: "OrderBook \<Rightarrow> error option \<times> OrderBook" where
  "update_top_of_book b =
     (case best_level py_max (yes_levels b) of
        Inl e \<Rightarrow> (Some e, b)
      | Inr y \<Rightarrow>
          let b1 = b\<lparr>best_yes := y\<rparr> in
          (case best_level py_min (no_levels b1) of
             Inl e \<Rightarrow> (Some e, b1)
           | Inr n \<Rightarrow> (None, b1\<lparr>best_no := n\<rparr>)))"

text \<open>
  The dict comprehension
  \<^verbatim>\<open>{int(price): int(quantity) for price, quantity in orders if quantity > 0}\<close>:
  the pairs are visited in order and a later pair with the same price overwrites the
  value of an earlier one.
\<close>

definition items :: "orders \<Rightarrow> (int \<times> int) list" where
  "items os = (case os of OrderList xs \<Rightarrow> xs | OrderDict xs \<Rightarrow> xs)"

definition levels_of :: "(int \<times> int) list \<Rightarrow> levels" where
  "levels_of xs = fold (\<lambda>(p, q) d. if q > 0 then AList.update p q d else d) xs []"

text \<open>
  \<^verbatim>\<open>OrderBook.__init__(orderbook_dict, publish_to_kafka)\<close>. The argument is a dict by
  its type, so the \<^verbatim>\<open>TypeError\<close> branch is not there. \<^verbatim>\<open>_pending_messages\<close> is only
  created when \<^verbatim>\<open>publish_to_kafka\<close> holds and is only read then; it is \<open>[]\<close> otherwise.
\<close>

definition OrderBook_init :: "content \<Rightarrow> bool \<Rightarrow> error + OrderBook" where
  "OrderBook_init d publish_to_kafka =
     (case msg_market_ticker d of
        None \<Rightarrow> Inl TickerRequired
      | Some t \<Rightarrow>
          let yes_orders = (case msg_yes d of None \<Rightarrow> [] | Some os \<Rightarrow> items os);
              no_orders = (case msg_no d of None \<Rightarrow> [] | Some os \<Rightarrow> items os);
              b = \<lparr>ticker = t,
                   yes_levels = levels_of yes_orders,
                   no_levels = levels_of no_orders,
                   best_yes = None, best_no = None,
                   producer = False, should_publish = publish_to_kafka,
                   pending_messages = [], sent = []\<rparr>
          in (case update_top_of_book b of
                (Some e, _) \<Rightarrow> Inl e
              | (None, b') \<Rightarrow> Inr b'))"

text \<open>Reading a message when it is sent: the book's own dicts are read as they are then.\<close>

definition deref :: "OrderBook \<Rightarrow> dict_ref \<Rightarrow> levels" where
  "deref b r = (case r of OwnYes \<Rightarrow> yes_levels b | OwnNo \<Rightarrow> no_levels b | Lit d \<Rightarrow> d)"

definition serialize :: "OrderBook \<Rightarrow> orderbook_dict \<Rightarrow> sent_record" where
  "serialize b m = (case m of (t, y, n) \<Rightarrow> (t, deref b y, deref b n))"

definition current_state :: "OrderBook \<Rightarrow> orderbook_dict" where
  "current_state b = (ticker b, OwnYes, OwnNo)"

text \<open>
  \<^verbatim>\<open>OrderBook._publish_to_kafka(orderbook_dict=None)\<close>. A dict that is given has the
  three keys, so \<^verbatim>\<open>orderbook_dict or {...}\<close> is the dict given. The transport itself is
  taken not to fail.
\<close>

definition publish_to_kafka :: "OrderBook \<Rightarrow> orderbook_dict option \<Rightarrow> OrderBook" where
  "publish_to_kafka b orderbook_dict =
     (if \<not> should_publish b then b
      else if \<not> producer b then
        b\<lparr>pending_messages := pending_messages b @
             [case orderbook_dict of Some m \<Rightarrow> m | None \<Rightarrow> current_state b]\<rparr>
      else
        b\<lparr>sent := sent b @
             [serialize b (case orderbook_dict of Some m \<Rightarrow> m | None \<Rightarrow> current_state b)]\<rparr>)"

text \<open>
  \<^verbatim>\<open>OrderBook.initialize_producer\<close>: the producer is set, then every pending message is
  published in list order, then the list is emptied.
\<close>

definition initialize_producer :: "OrderBook \<Rightarrow> OrderBook" where
  "initialize_producer b =
     (if should_publish b \<and> \<not> producer b then
        let b1 = b\<lparr>producer := True\<rparr>;
            b2 = fold (\<lambda>msg s. publish_to_kafka s (Some msg)) (pending_messages b1) b1
        in b2\<lparr>pending_messages := []\<rparr>
      else b)"

text \<open>\<^verbatim>\<open>levels = self.yes_levels if side == 'yes' else self.no_levels\<close>.\<close>

definition side_levels :: "OrderBook \<Rightarrow> string \<Rightarrow> levels" where
  "side_levels b sd = (if sd = ''yes'' then yes_levels b else no_levels b)"

text \<open>\<^verbatim>\<open>OrderBook._update_side(side, price, size_delta)\<close>.\<close>

definition update_side :: "OrderBook \<Rightarrow> string \<Rightarrow> int \<Rightarrow> int \<Rightarrow> error option \<times> OrderBook" where
  "update_side b sd pr size_delta =
     (if sd \<noteq> ''yes'' \<and> sd \<noteq> ''no'' then (Some InvalidSide, b)
      else
        let current_quantity = get_or_zero (side_levels b sd) pr;
            new_quantity = current_quantity + size_delta
        in if new_quantity = 0 then
             (if sd = ''yes''
              then update_top_of_book (b\<lparr>yes_levels := AList.delete pr (yes_levels b)\<rparr>)
              else update_top_of_book (b\<lparr>no_levels := AList.delete pr (no_levels b)\<rparr>))
           else if new_quantity < 0 then (Some NegativeQuantity, b)
           else
             (if sd = ''yes''
              then update_top_of_book (b\<lparr>yes_levels := AList.update pr new_quantity (yes_levels b)\<rparr>)
              else update_top_of_book (b\<lparr>no_levels := AList.update pr new_quantity (no_levels b)\<rparr>)))"

text \<open>
  \<^verbatim>\<open>OrderBook.update(msg)\<close>. \<^verbatim>\<open>all([side, price is not None, size_delta is not None])\<close>
  fails when the side is absent or the empty string, or the price or the delta is absent.
\<close>

definition update :: "OrderBook \<Rightarrow> content \<Rightarrow> error option \<times> OrderBook" where
  "update b msg =
     (case (msg_side msg, msg_price msg, msg_delta msg) of
        (Some sd, Some pr, Some size_delta) \<Rightarrow>
          if sd = [] then (Some MissingFields, b)
          else (case update_side b sd pr size_delta of
                  (Some e, b') \<Rightarrow> (Some e, b')
                | (None, b') \<Rightarrow> (None, publish_to_kafka b' None))
      | _ \<Rightarrow> (Some MissingFields, b))"

text \<open>
  \<^verbatim>\<open>OrderBook.get_book(side)\<close>: it assigns to no attribute, so it is a function of the
  book alone. The offers are the dict comprehension
  \<^verbatim>\<open>{100 - int(price): quantity for price, quantity in alt_bids.items()}\<close>.
\<close>

definition get_book :: "OrderBook \<Rightarrow> string \<Rightarrow> levels \<times> levels" where
  "get_book b sd =
     (let yes_bids = yes_levels b;
          no_bids = no_levels b;
          bids = (if sd = ''yes'' then yes_bids else no_bids);
          alt_bids = (if sd = ''yes'' then no_bids else yes_bids);
          offers = fold (\<lambda>(p, q) d. AList.update (100 - p) q d) alt_bids []
      in (bids, offers))"

text \<open>\<^verbatim>\<open>OrderBook.get_bbo\<close>.\<close>

definition get_bbo :: "OrderBook \<Rightarrow> PriceLevel option \<times> PriceLevel option" where
  "get_bbo b = (best_yes b, best_no b)"

section \<open>MarketDataService.py\<close>

text \<open>
  The envelope dict of the feed: the keys \<^verbatim>\<open>'type'\<close>, \<^verbatim>\<open>'seq'\<close> and \<^verbatim>\<open>'msg'\<close>, \<open>None\<close> when
  absent.
\<close>

record message =
  msg_type :: "string option"
  msg_seq :: "int option"
  msg_msg :: "content option"

text \<open>The attributes of an \<^verbatim>\<open>OrderbookManager\<close>; both are dicts keyed by strings.\<close>

record OrderbookManager =
  orderbooks :: "string \<rightharpoonup> OrderBook"
  sequence_numbers :: "string \<rightharpoonup> int"

text \<open>\<^verbatim>\<open>OrderbookManager.__init__\<close>.\<close>

definition OrderbookManager_init :: OrderbookManager where
  "OrderbookManager_init =
     \<lparr>orderbooks = Map.empty,
      sequence_numbers = [''orderbook_delta'' \<mapsto> -1,
                          ''orderbook_snapshot'' \<mapsto> -1,
                          ''trade'' \<mapsto> -1]\<rparr>"

text \<open>The empty dict \<^verbatim>\<open>{}\<close> that \<^verbatim>\<open>message.get('msg', {})\<close> returns when the key is absent.\<close>

definition empty_content :: content where
  "empty_content =
     \<lparr>msg_market_ticker = None, msg_yes = None, msg_no = None,
      msg_side = None, msg_price = None, msg_delta = None\<rparr>"

text \<open>\<^verbatim>\<open>OrderbookManager._check_sequence(channel, seq_no)\<close>.\<close>

definition check_sequence ::
  "OrderbookManager \<Rightarrow> string \<Rightarrow> int option \<Rightarrow> error option \<times> OrderbookManager" where
  "check_sequence m channel seq_no =
     (case seq_no of
        None \<Rightarrow> (Some (MissingSequence channel), m)
      | Some s \<Rightarrow>
          (case sequence_numbers m channel of
             None \<Rightarrow> (Some (KeyErrorChannel channel), m)
           | Some last_seq \<Rightarrow>
               if last_seq \<noteq> -1 \<and> s \<noteq> last_seq + 1
               then (Some (SequenceGap channel (last_seq + 1) s), m)
               else (None, m\<lparr>sequence_numbers := (sequence_numbers m)(channel \<mapsto> s)\<rparr>)))"

text \<open>
  \<^verbatim>\<open>OrderbookManager._process_orderbook_snapshot\<close>: a new book (publishing enabled, the
  default), its producer started, stored under the ticker.
\<close>

definition process_orderbook_snapshot ::
  "OrderbookManager \<Rightarrow> string \<Rightarrow> content \<Rightarrow> error option \<times> OrderbookManager" where
  "process_orderbook_snapshot m market_ticker msg_content =
     (case OrderBook_init msg_content True of
        Inl e \<Rightarrow> (Some e, m)
      | Inr orderbook \<Rightarrow>
          (None, m\<lparr>orderbooks := (orderbooks m)(market_ticker \<mapsto> initialize_producer orderbook)\<rparr>))"

text \<open>
  \<^verbatim>\<open>OrderbookManager._process_orderbook_delta\<close>. The book stored under the ticker is
  mutated in place, so it is stored back as \<^verbatim>\<open>update\<close> leaves it, also when \<^verbatim>\<open>update\<close>
  raises.
\<close>

definition process_orderbook_delta ::
  "OrderbookManager \<Rightarrow> string \<Rightarrow> content \<Rightarrow> error option \<times> OrderbookManager" where
  "process_orderbook_delta m market_ticker msg_content =
     (case orderbooks m market_ticker of
        None \<Rightarrow> (Some (UnknownMarket market_ticker), m)
      | Some orderbook \<Rightarrow>
          (case update orderbook msg_content of
             (e, orderbook') \<Rightarrow>
               (e, m\<lparr>orderbooks := (orderbooks m)(market_ticker \<mapsto> orderbook')\<rparr>)))"

text \<open>
  \<^verbatim>\<open>OrderbookManager.process_message\<close>. \<^verbatim>\<open>not channel\<close> holds for an absent type and for
  the empty string. A payload without ticker on any channel but \<^verbatim>\<open>'subscribed'\<close> is logged
  and the method returns. \<^verbatim>\<open>_process_subscription\<close> and \<^verbatim>\<open>_process_trade\<close> only log. The
  \<^verbatim>\<open>except\<close> clause logs and raises again. In the branches of the \<^verbatim>\<open>match\<close> that use the
  ticker it is present, so the \<^verbatim>\<open>match\<close> is written once for each case of the ticker.
\<close>

definition process_message ::
  "OrderbookManager \<Rightarrow> message \<Rightarrow> error option \<times> OrderbookManager" where
  "process_message m msg =
     (case msg_type msg of
        None \<Rightarrow> (Some MalformedMessage, m)
      | Some channel \<Rightarrow>
          if channel = [] then (Some MalformedMessage, m)
          else
            let seq_no = msg_seq msg;
                msg_content = (case msg_msg msg of None \<Rightarrow> empty_content | Some c \<Rightarrow> c)
            in (case msg_market_ticker msg_content of
                  None \<Rightarrow>
                    if channel \<noteq> ''subscribed'' then (None, m)
                    else (None, m)
                | Some market_ticker \<Rightarrow>
                    if channel = ''subscribed'' then (None, m)
                    else if channel = ''ticker'' then (None, m)
                    else if channel = ''trade'' then check_sequence m channel seq_no
                    else if channel = ''orderbook_snapshot'' then
                      (case process_orderbook_snapshot m market_ticker msg_content of
                         (Some e, m') \<Rightarrow> (Some e, m')
                       | (None, m') \<Rightarrow> check_sequence m' channel seq_no)
                    else if channel = ''orderbook_delta'' then
                      (case process_orderbook_delta m market_ticker msg_content of
                         (Some e, m') \<Rightarrow> (Some e, m')
                       | (None, m') \<Rightarrow> check_sequence m' channel seq_no)
                    else (None, m)))"

section \<open>Properties of the book\<close>

text \<open>
  A cached best level agrees with a dict: it is absent exactly when the dict is empty, and
  otherwise its price is a key of the dict, its quantity is the value under that key, and
  no key of the dict is better (\<open>better p k\<close>: the price \<open>p\<close> is at least as good as \<open>k\<close>).
\<close>

definition is_top :: "(int \<Rightarrow> int \<Rightarrow> bool) \<Rightarrow> levels \<Rightarrow> PriceLevel option \<Rightarrow> bool" where
  "is_top better lv best =
     ((best = None \<longleftrightarrow> lv = []) \<and>
      (case best of
         None \<Rightarrow> True
       | Some (PriceLevel p q) \<Rightarrow>
           map_of lv p = Some q \<and> (\<forall>k \<in> fst ` set lv. better p k)))"

text \<open>The cached best of book is current: the highest yes price and the lowest no price.\<close>

definition top_of_book_ok :: "OrderBook \<Rightarrow> bool" where
  "top_of_book_ok b =
     (is_top (\<lambda>p k. k \<le> p) (yes_levels b) (best_yes b) \<and>
      is_top (\<lambda>p k. p \<le> k) (no_levels b) (best_no b))"

text \<open>Every quantity stored on either side is positive.\<close>

definition levels_positive :: "OrderBook \<Rightarrow> bool" where
  "levels_positive b =
     ((\<forall>(p, q) \<in> set (yes_levels b). 0 < q) \<and> (\<forall>(p, q) \<in> set (no_levels b). 0 < q))"

text \<open>
  The keys of a Python dict are distinct; an association list stands for a dict only when
  its keys are. The constructor and \<^verbatim>\<open>_update_side\<close> keep it so (lemmas \<open>OrderBook_init_distinct\<close>
  and \<open>update_distinct\<close> below).
\<close>

definition keys_distinct :: "OrderBook \<Rightarrow> bool" where
  "keys_distinct b = (distinct (map fst (yes_levels b)) \<and> distinct (map fst (no_levels b)))"

text \<open>A snapshot, a delta and the book the snapshot builds, for the concrete instances below.\<close>

definition example_snapshot :: content where
  "example_snapshot =
     \<lparr>msg_market_ticker = Some ''X'',
      msg_yes = Some (OrderList [(40, 10), (42, 3)]),
      msg_no = Some (OrderList [(55, 20), (60, 1)]),
      msg_side = None, msg_price = None, msg_delta = None\<rparr>"

definition example_delta :: "string \<Rightarrow> int \<Rightarrow> int \<Rightarrow> content" where
  "example_delta sd pr dl =
     \<lparr>msg_market_ticker = Some ''X'', msg_yes = None, msg_no = None,
      msg_side = Some sd, msg_price = Some pr, msg_delta = Some dl\<rparr>"

definition example_book :: "bool \<Rightarrow> OrderBook" where
  "example_book pub =
     \<lparr>ticker = ''X'', yes_levels = [(40, 10), (42, 3)], no_levels = [(55, 20), (60, 1)],
      best_yes = Some (PriceLevel 42 3), best_no = Some (PriceLevel 55 20),
      producer = False, should_publish = pub, pending_messages = [], sent = []\<rparr>"

text \<open>The example book with its producer attached, after the delta \<^verbatim>\<open>yes 42 -3\<close>.\<close>

definition example_book_after :: OrderBook where
  "example_book_after =
     \<lparr>ticker = ''X'', yes_levels = [(40, 10)], no_levels = [(55, 20), (60, 1)],
      best_yes = Some (PriceLevel 40 10), best_no = Some (PriceLevel 55 20),
      producer = True, should_publish = True, pending_messages = [],
      sent = [(''X'', [(40, 10)], [(55, 20), (60, 1)])]\<rparr>"

text \<open>A manager that holds the example book with its producer attached and has seen sequence
  numbers on two channels; and the envelope of a message.\<close>

definition example_manager :: OrderbookManager where
  "example_manager =
     \<lparr>orderbooks = [''X'' \<mapsto> (example_book True)\<lparr>producer := True\<rparr>],
      sequence_numbers = [''orderbook_delta'' \<mapsto> 10,
                          ''orderbook_snapshot'' \<mapsto> 4,
                          ''trade'' \<mapsto> -1]\<rparr>"

definition envelope :: "string \<Rightarrow> int \<Rightarrow> content \<Rightarrow> message" where
  "envelope channel s c = \<lparr>msg_type = Some channel, msg_seq = Some s, msg_msg = Some c\<rparr>"

text \<open>The example book, without producer, after the delta \<^verbatim>\<open>yes 42 -3\<close> and then after the delta
  \<^verbatim>\<open>no 55 +5\<close>: each update has appended one message to the pending list.\<close>

definition buffered_once :: OrderBook where
  "buffered_once =
     \<lparr>ticker = ''X'', yes_levels = [(40, 10)], no_levels = [(55, 20), (60, 1)],
      best_yes = Some (PriceLevel 40 10), best_no = Some (PriceLevel 55 20),
      producer = False, should_publish = True,
      pending_messages = [(''X'', OwnYes, OwnNo)], sent = []\<rparr>"

definition buffered_twice :: OrderBook where
  "buffered_twice =
     \<lparr>ticker = ''X'', yes_levels = [(40, 10)], no_levels = [(55, 25), (60, 1)],
      best_yes = Some (PriceLevel 40 10), best_no = Some (PriceLevel 55 25),
      producer = False, should_publish = True,
      pending_messages = [(''X'', OwnYes, OwnNo), (''X'', OwnYes, OwnNo)], sent = []\<rparr>"

text \<open>A snapshot for a second market, with one pair that the constructor drops, and the book
  the manager stores for it (the producer attached).\<close>

definition other_snapshot :: content where
  "other_snapshot =
     \<lparr>msg_market_ticker = Some ''Y'',
      msg_yes = Some (OrderList [(30, 5)]),
      msg_no = Some (OrderList [(70, 2), (65, 0)]),
      msg_side = None, msg_price = None, msg_delta = None\<rparr>"

definition other_book :: OrderBook where
  "other_book =
     \<lparr>ticker = ''Y'', yes_levels = [(30, 5)], no_levels = [(70, 2)],
      best_yes = Some (PriceLevel 30 5), best_no = Some (PriceLevel 70 2),
      producer = True, should_publish = True, pending_messages = [], sent = []\<rparr>"

section \<open>Auxiliary lemmas\<close>

text \<open>The definitions a concrete instance unfolds.\<close>

lemmas eval_defs =
  OrderBook_init_def levels_of_def items_def update_top_of_book_def best_level_def
  py_max_def py_min_def getitem_def update_def update_side_def side_levels_def
  get_or_zero_def publish_to_kafka_def current_state_def initialize_producer_def
  serialize_def deref_def example_snapshot_def example_delta_def example_book_def

subsection \<open>Best of book\<close>

lemma fold_max_in: "fold (\<lambda>x m. if m < x then x else m) xs (a::int) \<in> insert a (set xs)"
  by (induction xs arbitrary: a) auto

lemma fold_max_ge: "k \<in> insert a (set xs) \<Longrightarrow> k \<le> fold (\<lambda>x m. if m < x then x else m) xs (a::int)"
proof (induction xs arbitrary: a k)
  case Nil
  then show ?case by simp
next
  case (Cons x xs)
  have mono: "c \<le> fold (\<lambda>x m. if m < x then x else m) xs c" for c
    using Cons.IH [of c c] by simp
  show ?case
  proof (cases "k \<in> set xs")
    case True
    then show ?thesis using Cons.IH by simp
  next
    case False
    with Cons.prems have "k = a \<or> k = x" by auto
    then have "k \<le> (if a < x then x else a)" by auto
    also have "\<dots> \<le> fold (\<lambda>x m. if m < x then x else m) xs (if a < x then x else a)"
      by (rule mono)
    finally show ?thesis by simp
  qed
qed

lemma fold_min_in: "fold (\<lambda>x m. if x < m then x else m) xs (a::int) \<in> insert a (set xs)"
  by (induction xs arbitrary: a) auto

lemma fold_min_le: "k \<in> insert a (set xs) \<Longrightarrow> fold (\<lambda>x m. if x < m then x else m) xs (a::int) \<le> k"
proof (induction xs arbitrary: a k)
  case Nil
  then show ?case by simp
next
  case (Cons x xs)
  have mono: "fold (\<lambda>x m. if x < m then x else m) xs c \<le> c" for c
    using Cons.IH [of c c] by simp
  show ?case
  proof (cases "k \<in> set xs")
    case True
    then show ?thesis using Cons.IH by simp
  next
    case False
    with Cons.prems have "k = a \<or> k = x" by auto
    then have *: "(if x < a then x else a) \<le> k" by auto
    have "fold (\<lambda>x m. if x < m then x else m) xs (if x < a then x else a) \<le> (if x < a then x else a)"
      by (rule mono)
    with * show ?thesis by simp
  qed
qed

lemma py_max_spec:
  "ks \<noteq> [] \<Longrightarrow> \<exists>p. py_max ks = Inr p \<and> p \<in> set ks \<and> (\<forall>k \<in> set ks. k \<le> p)"
proof (cases ks)
  case Nil
  assume "ks \<noteq> []"
  with Nil show ?thesis by simp
next
  case (Cons a xs)
  have "fold (\<lambda>x m. if m < x then x else m) xs a \<in> set ks"
    using fold_max_in [of xs a] Cons by simp
  moreover have "\<forall>k \<in> set ks. k \<le> fold (\<lambda>x m. if m < x then x else m) xs a"
    using fold_max_ge [of _ a xs] Cons by simp
  ultimately show ?thesis using Cons by (simp add: py_max_def)
qed

lemma py_min_spec:
  "ks \<noteq> [] \<Longrightarrow> \<exists>p. py_min ks = Inr p \<and> p \<in> set ks \<and> (\<forall>k \<in> set ks. p \<le> k)"
proof (cases ks)
  case Nil
  assume "ks \<noteq> []"
  with Nil show ?thesis by simp
next
  case (Cons a xs)
  have "fold (\<lambda>x m. if x < m then x else m) xs a \<in> set ks"
    using fold_min_in [of xs a] Cons by simp
  moreover have "\<forall>k \<in> set ks. fold (\<lambda>x m. if x < m then x else m) xs a \<le> k"
    using fold_min_le [of _ a xs] Cons by simp
  ultimately show ?thesis using Cons by (simp add: py_min_def)
qed

lemma getitem_key: "p \<in> fst ` set lv \<Longrightarrow> \<exists>q. getitem lv p = Inr q \<and> map_of lv p = Some q"
proof -
  assume "p \<in> fst ` set lv"
  then have "map_of lv p \<noteq> None" by (simp add: map_of_eq_None_iff)
  then show ?thesis by (auto simp: getitem_def)
qed

lemma best_level_max:
  "\<exists>r. best_level py_max lv = Inr r \<and> is_top (\<lambda>p k. k \<le> p) lv r"
proof (cases "lv = []")
  case True
  then show ?thesis by (simp add: best_level_def is_top_def)
next
  case False
  then have "map fst lv \<noteq> []" by simp
  from py_max_spec [OF this] obtain p where
    p: "py_max (map fst lv) = Inr p" "p \<in> fst ` set lv" "\<forall>k \<in> fst ` set lv. k \<le> p"
    by auto
  from getitem_key [OF p(2)] obtain q where q: "getitem lv p = Inr q" "map_of lv p = Some q"
    by auto
  show ?thesis using False p q by (simp add: best_level_def is_top_def)
qed

lemma best_level_min:
  "\<exists>r. best_level py_min lv = Inr r \<and> is_top (\<lambda>p k. p \<le> k) lv r"
proof (cases "lv = []")
  case True
  then show ?thesis by (simp add: best_level_def is_top_def)
next
  case False
  then have "map fst lv \<noteq> []" by simp
  from py_min_spec [OF this] obtain p where
    p: "py_min (map fst lv) = Inr p" "p \<in> fst ` set lv" "\<forall>k \<in> fst ` set lv. p \<le> k"
    by auto
  from getitem_key [OF p(2)] obtain q where q: "getitem lv p = Inr q" "map_of lv p = Some q"
    by auto
  show ?thesis using False p q by (simp add: best_level_def is_top_def)
qed

lemma is_top_unique:
  assumes anti: "\<And>x y. better x y \<Longrightarrow> better y x \<Longrightarrow> x = y"
    and r: "is_top better lv r" and r': "is_top better lv r'"
  shows "r = r'"
proof (cases "lv = []")
  case True
  with r r' show ?thesis by (simp add: is_top_def)
next
  case False
  with r obtain p q where pq: "r = Some (PriceLevel p q)"
    by (cases r) (auto simp: is_top_def intro: PriceLevel.exhaust)
  from False r' obtain p' q' where pq': "r' = Some (PriceLevel p' q')"
    by (cases r') (auto simp: is_top_def intro: PriceLevel.exhaust)
  from r pq have 1: "map_of lv p = Some q" "\<forall>k \<in> fst ` set lv. better p k"
    by (simp_all add: is_top_def)
  from r' pq' have 2: "map_of lv p' = Some q'" "\<forall>k \<in> fst ` set lv. better p' k"
    by (simp_all add: is_top_def)
  have "p \<in> fst ` set lv" using 1(1) by (metis map_of_eq_None_iff option.distinct(1))
  moreover have "p' \<in> fst ` set lv" using 2(1) by (metis map_of_eq_None_iff option.distinct(1))
  ultimately have "better p p'" "better p' p" using 1(2) 2(2) by blast+
  then have "p = p'" by (rule anti)
  with 1(1) 2(1) have "q = q'" by simp
  with \<open>p = p'\<close> pq pq' show ?thesis by simp
qed

lemma update_top_of_book_result:
  "\<exists>y n. update_top_of_book b = (None, b\<lparr>best_yes := y, best_no := n\<rparr>) \<and>
          best_level py_max (yes_levels b) = Inr y \<and> best_level py_min (no_levels b) = Inr n"
proof -
  obtain y where y: "best_level py_max (yes_levels b) = Inr y"
    using best_level_max [of "yes_levels b"] by auto
  obtain n where n: "best_level py_min (no_levels b) = Inr n"
    using best_level_min [of "no_levels b"] by auto
  show ?thesis using y n by (simp add: update_top_of_book_def)
qed

lemma update_top_of_book_ok:
  "update_top_of_book b = (e, b') \<Longrightarrow>
     e = None \<and> top_of_book_ok b' \<and> yes_levels b' = yes_levels b \<and> no_levels b' = no_levels b \<and>
     ticker b' = ticker b \<and> producer b' = producer b \<and> should_publish b' = should_publish b \<and>
     pending_messages b' = pending_messages b \<and> sent b' = sent b"
proof -
  assume a: "update_top_of_book b = (e, b')"
  obtain y n where r: "update_top_of_book b = (None, b\<lparr>best_yes := y, best_no := n\<rparr>)"
     "best_level py_max (yes_levels b) = Inr y" "best_level py_min (no_levels b) = Inr n"
    using update_top_of_book_result [of b] by auto
  from a r(1) have e: "e = None" and b': "b' = b\<lparr>best_yes := y, best_no := n\<rparr>" by simp_all
  have "top_of_book_ok b'"
    using best_level_max [of "yes_levels b"] best_level_min [of "no_levels b"] r(2,3)
    by (auto simp: top_of_book_ok_def b')
  then show ?thesis using e b' by simp
qed

lemma top_of_book_ok_fixpoint:
  assumes "top_of_book_ok b"
  shows "update_top_of_book b = (None, b)"
proof -
  obtain y n where r: "update_top_of_book b = (None, b\<lparr>best_yes := y, best_no := n\<rparr>)"
     "best_level py_max (yes_levels b) = Inr y" "best_level py_min (no_levels b) = Inr n"
    using update_top_of_book_result [of b] by auto
  have "is_top (\<lambda>p k. k \<le> p) (yes_levels b) y"
    using best_level_max [of "yes_levels b"] r(2) by auto
  moreover have "is_top (\<lambda>p k. k \<le> p) (yes_levels b) (best_yes b)"
    using assms by (simp add: top_of_book_ok_def)
  ultimately have y: "y = best_yes b"
    by (rule is_top_unique [rotated]) simp
  have "is_top (\<lambda>p k. p \<le> k) (no_levels b) n"
    using best_level_min [of "no_levels b"] r(3) by auto
  moreover have "is_top (\<lambda>p k. p \<le> k) (no_levels b) (best_no b)"
    using assms by (simp add: top_of_book_ok_def)
  ultimately have n: "n = best_no b"
    by (rule is_top_unique [rotated]) simp
  show ?thesis using r(1) y n by simp
qed

subsection \<open>Dict operations\<close>

lemma update_in_set:
  "x \<in> set (AList.update k v al) \<Longrightarrow> x = (k, v) \<or> x \<in> set al"
  by (induction al) (auto split: if_splits)

lemma delete_in_set: "x \<in> set (AList.delete k al) \<Longrightarrow> x \<in> set al"
  by (simp add: AList.delete_eq)

lemma update_fresh: "k \<notin> fst ` set al \<Longrightarrow> AList.update k v al = al @ [(k, v)]"
  by (induction al) auto

lemma fold_levels_in_set:
  "x \<in> set (fold (\<lambda>(p, q) d. if q > 0 then AList.update p q d else d) xs acc) \<Longrightarrow>
     x \<in> set acc \<or> (x \<in> set xs \<and> 0 < snd x)"
proof (induction xs arbitrary: acc)
  case Nil
  then show ?case by simp
next
  case (Cons a xs)
  obtain p q where a: "a = (p, q)" by (cases a)
  show ?case
  proof (cases "q > 0")
    case True
    with Cons.prems a
    have "x \<in> set (fold (\<lambda>(p, q) d. if q > 0 then AList.update p q d else d) xs (AList.update p q acc))"
      by simp
    from Cons.IH [OF this] show ?thesis
      using True a by (auto dest: update_in_set)
  next
    case False
    with Cons.prems a
    have "x \<in> set (fold (\<lambda>(p, q) d. if q > 0 then AList.update p q d else d) xs acc)"
      by simp
    from Cons.IH [OF this] show ?thesis by auto
  qed
qed

lemma levels_of_in_set: "(p, q) \<in> set (levels_of xs) \<Longrightarrow> (p, q) \<in> set xs \<and> 0 < q"
  using fold_levels_in_set [of "(p, q)" xs "[]"] by (simp add: levels_of_def)

lemma fold_levels_distinct:
  "distinct (map fst acc) \<Longrightarrow>
     distinct (map fst (fold (\<lambda>(p, q) d. if q > 0 then AList.update p q d else d) xs acc))"
  by (induction xs arbitrary: acc) (auto simp: distinct_update)

lemma levels_of_distinct: "distinct (map fst (levels_of xs))"
  using fold_levels_distinct [of "[]" xs] by (simp add: levels_of_def)

subsection \<open>What the methods return\<close>

lemma publish_to_kafka_frame:
  "yes_levels (publish_to_kafka b x) = yes_levels b \<and>
   no_levels (publish_to_kafka b x) = no_levels b \<and>
   best_yes (publish_to_kafka b x) = best_yes b \<and>
   best_no (publish_to_kafka b x) = best_no b \<and>
   ticker (publish_to_kafka b x) = ticker b \<and>
   producer (publish_to_kafka b x) = producer b \<and>
   should_publish (publish_to_kafka b x) = should_publish b"
  by (simp add: publish_to_kafka_def)

lemma update_side_None:
  assumes "update_side b sd pr dl = (None, b')"
  shows "(sd = ''yes'' \<or> sd = ''no'') \<and>
         0 \<le> get_or_zero (side_levels b sd) pr + dl \<and>
         top_of_book_ok b' \<and>
         side_levels b' sd =
           (if get_or_zero (side_levels b sd) pr + dl = 0
            then AList.delete pr (side_levels b sd)
            else AList.update pr (get_or_zero (side_levels b sd) pr + dl) (side_levels b sd)) \<and>
         (sd = ''yes'' \<longrightarrow> no_levels b' = no_levels b) \<and>
         (sd = ''no'' \<longrightarrow> yes_levels b' = yes_levels b) \<and>
         ticker b' = ticker b \<and> producer b' = producer b \<and>
         should_publish b' = should_publish b \<and>
         pending_messages b' = pending_messages b \<and> sent b' = sent b"
proof -
  from assms have sd: "sd = ''yes'' \<or> sd = ''no''"
    by (auto simp: update_side_def split: if_splits)
  from assms sd have nn: "0 \<le> get_or_zero (side_levels b sd) pr + dl"
    by (auto simp: update_side_def Let_def split: if_splits)
  show ?thesis
  proof (cases "sd = ''yes''")
    case True
    with assms nn show ?thesis
      by (auto simp: update_side_def Let_def side_levels_def split: if_splits
               dest!: update_top_of_book_ok)
  next
    case False
    with sd have "sd = ''no''" by simp
    with assms nn show ?thesis
      by (auto simp: update_side_def Let_def side_levels_def split: if_splits
               dest!: update_top_of_book_ok)
  qed
qed

lemma update_None:
  assumes "update b msg = (None, b')"
  shows "\<exists>sd pr dl b1. msg_side msg = Some sd \<and> msg_price msg = Some pr \<and> msg_delta msg = Some dl \<and>
           update_side b sd pr dl = (None, b1) \<and> b' = publish_to_kafka b1 None"
  using assms
  by (auto simp: update_def split: option.splits if_splits prod.splits)

lemma OrderBook_init_Inr:
  assumes "OrderBook_init d pub = Inr b"
  shows "\<exists>t. msg_market_ticker d = Some t \<and> ticker b = t \<and>
           yes_levels b = levels_of (case msg_yes d of None \<Rightarrow> [] | Some os \<Rightarrow> items os) \<and>
           no_levels b = levels_of (case msg_no d of None \<Rightarrow> [] | Some os \<Rightarrow> items os) \<and>
           top_of_book_ok b \<and> \<not> producer b \<and> should_publish b = pub \<and>
           pending_messages b = [] \<and> sent b = []"
  using assms
  by (auto simp: OrderBook_init_def Let_def split: option.splits prod.splits
           dest!: update_top_of_book_ok)

subsection \<open>Positive quantities\<close>

lemma OrderBook_init_positive:
  assumes "OrderBook_init d pub = Inr b"
  shows "levels_positive b"
proof -
  from OrderBook_init_Inr [OF assms] obtain ys ns where
    "yes_levels b = levels_of ys" "no_levels b = levels_of ns" by blast
  then show ?thesis
    by (auto simp: levels_positive_def dest: levels_of_in_set)
qed

lemma update_side_positive:
  assumes pos: "levels_positive b" and u: "update_side b sd pr dl = (e, b')"
  shows "levels_positive b'"
proof (cases e)
  case (Some err)
  with u have "b' = b"
    by (auto simp: update_side_def Let_def split: if_splits dest!: update_top_of_book_ok)
  with pos show ?thesis by simp
next
  case None
  note r = update_side_None [OF u [unfolded None]]
  let ?q = "get_or_zero (side_levels b sd) pr + dl"
  have side: "\<forall>(p, q) \<in> set (side_levels b' sd). 0 < q"
  proof (cases "?q = 0")
    case True
    with r have "side_levels b' sd = AList.delete pr (side_levels b sd)" by simp
    with pos show ?thesis
      by (auto simp: levels_positive_def side_levels_def dest!: delete_in_set split: if_splits)
  next
    case False
    with r have "0 < ?q" and "side_levels b' sd = AList.update pr ?q (side_levels b sd)"
      by simp_all
    with pos show ?thesis
      by (auto simp: levels_positive_def side_levels_def dest!: update_in_set split: if_splits)
  qed
  from r have "sd = ''yes'' \<or> sd = ''no''" by simp
  then show ?thesis
  proof
    assume "sd = ''yes''"
    with r side pos show ?thesis by (simp add: levels_positive_def side_levels_def)
  next
    assume "sd = ''no''"
    with r side pos show ?thesis by (simp add: levels_positive_def side_levels_def)
  qed
qed

lemma update_positive:
  assumes pos: "levels_positive b" and u: "update b msg = (e, b')"
  shows "levels_positive b'"
proof -
  have pub: "levels_positive (publish_to_kafka c x) = levels_positive c" for c x
    by (simp add: levels_positive_def publish_to_kafka_frame)
  from u show ?thesis
    using pos update_side_positive [OF pos]
    by (auto simp: update_def pub split: option.splits if_splits prod.splits)
qed

subsection \<open>Distinct keys and the consolidated book\<close>

lemma OrderBook_init_distinct:
  assumes "OrderBook_init d pub = Inr b"
  shows "keys_distinct b"
proof -
  from OrderBook_init_Inr [OF assms] obtain ys ns where
    "yes_levels b = levels_of ys" "no_levels b = levels_of ns" by blast
  then show ?thesis by (simp add: keys_distinct_def levels_of_distinct)
qed

lemma update_side_distinct:
  assumes k: "keys_distinct b" and u: "update_side b sd pr dl = (e, b')"
  shows "keys_distinct b'"
proof (cases e)
  case (Some err)
  with u have "b' = b"
    by (auto simp: update_side_def Let_def split: if_splits dest!: update_top_of_book_ok)
  with k show ?thesis by simp
next
  case None
  note r = update_side_None [OF u [unfolded None]]
  from k have "distinct (map fst (side_levels b sd))"
    by (simp add: keys_distinct_def side_levels_def)
  with r have side: "distinct (map fst (side_levels b' sd))"
    by (simp add: distinct_update distinct_delete)
  from r have "sd = ''yes'' \<or> sd = ''no''" by simp
  then show ?thesis
  proof
    assume "sd = ''yes''"
    with r side k show ?thesis by (simp add: keys_distinct_def side_levels_def)
  next
    assume "sd = ''no''"
    with r side k show ?thesis by (simp add: keys_distinct_def side_levels_def)
  qed
qed

lemma update_distinct:
  assumes k: "keys_distinct b" and u: "update b msg = (e, b')"
  shows "keys_distinct b'"
proof -
  have pub: "keys_distinct (publish_to_kafka c x) = keys_distinct c" for c x
    by (simp add: keys_distinct_def publish_to_kafka_frame)
  from u show ?thesis
    using k update_side_distinct [OF k]
    by (auto simp: update_def pub split: option.splits if_splits prod.splits)
qed

lemma complement_keys_distinct:
  "distinct (map fst xs) \<Longrightarrow> distinct (map (\<lambda>(p, q). 100 - p) (xs :: levels))"
proof -
  assume d: "distinct (map fst xs)"
  have "map (\<lambda>(p, q). 100 - p) xs = map (\<lambda>k. 100 - k) (map fst xs)"
    by (simp add: case_prod_beta comp_def)
  moreover have "inj_on (\<lambda>k::int. 100 - k) (set (map fst xs))"
    by (rule inj_onI) simp
  ultimately show ?thesis using d by (simp only: distinct_map simp_thms)
qed

lemma fold_complement:
  "distinct (map fst acc @ map (\<lambda>(p, q). 100 - p) xs) \<Longrightarrow>
     fold (\<lambda>(p, q) d. AList.update (100 - p) q d) xs acc =
       acc @ map (\<lambda>(p, q). (100 - p, q)) (xs :: levels)"
proof (induction xs arbitrary: acc)
  case Nil
  then show ?case by simp
next
  case (Cons x xs)
  obtain p q where x: "x = (p, q)" by (cases x)
  from Cons.prems x have fresh: "100 - p \<notin> fst ` set acc" by auto
  from Cons.prems x
  have "distinct (map fst (acc @ [(100 - p, q)]) @ map (\<lambda>(p, q). 100 - p) xs)" by auto
  from Cons.IH [OF this] show ?case
    using x fresh by (simp add: update_fresh)
qed

lemma offers_eq_map:
  "distinct (map fst alt) \<Longrightarrow>
     fold (\<lambda>(p, q) d. AList.update (100 - p) q d) alt [] =
       map (\<lambda>(p, q). (100 - p, q)) (alt :: levels)"
  using fold_complement [of "[]" alt] complement_keys_distinct [of alt] by simp

lemma map_of_complement:
  "map_of (map (\<lambda>(p, q). (100 - p, q)) (xs :: levels)) (100 - k) = map_of xs k"
  by (induction xs) auto

lemma complement_twice: "map (\<lambda>(p, q). (100 - p, q)) (map (\<lambda>(p, q). (100 - p, q)) xs) = (xs :: levels)"
  by (induction xs) auto

lemma complement_key_set:
  "(\<lambda>k. 100 - k) ` fst ` set (map (\<lambda>(p, q). (100 - p, q)) (xs :: levels)) = fst ` set xs"
  by (induction xs) auto

subsection \<open>The manager\<close>

lemmas manager_defs =
  process_message_def process_orderbook_snapshot_def process_orderbook_delta_def
  check_sequence_def OrderbookManager_init_def empty_content_def example_manager_def
  envelope_def

lemma payload_never_sequence_error:
  "process_orderbook_snapshot m t c = (Some err, m1) \<Longrightarrow>
     m1 = m \<and> (\<forall>ch e g. err \<noteq> SequenceGap ch e g) \<and> (\<forall>ch. err \<noteq> MissingSequence ch)"
  "process_orderbook_delta m t c = (Some err, m2) \<Longrightarrow>
     sequence_numbers m2 = sequence_numbers m \<and>
     (\<forall>ch e g. err \<noteq> SequenceGap ch e g) \<and> (\<forall>ch. err \<noteq> MissingSequence ch)"
proof -
  assume "process_orderbook_snapshot m t c = (Some err, m1)"
  then show "m1 = m \<and> (\<forall>ch e g. err \<noteq> SequenceGap ch e g) \<and> (\<forall>ch. err \<noteq> MissingSequence ch)"
    by (auto simp: process_orderbook_snapshot_def OrderBook_init_def Let_def
             split: sum.splits option.splits prod.splits dest!: update_top_of_book_ok)
next
  assume a: "process_orderbook_delta m t c = (Some err, m2)"
  have u: "update b c = (Some x, b') \<Longrightarrow>
             (\<forall>ch e g. x \<noteq> SequenceGap ch e g) \<and> (\<forall>ch. x \<noteq> MissingSequence ch)" for b b' x
    by (auto simp: update_def update_side_def Let_def
             split: option.splits if_splits prod.splits dest!: update_top_of_book_ok)
  from a show "sequence_numbers m2 = sequence_numbers m \<and>
     (\<forall>ch e g. err \<noteq> SequenceGap ch e g) \<and> (\<forall>ch. err \<noteq> MissingSequence ch)"
    by (auto simp: process_orderbook_delta_def split: option.splits prod.splits dest!: u)
qed

lemma check_sequence_failed:
  "check_sequence m channel s = (Some err, m') \<Longrightarrow> m' = m"
  by (auto simp: check_sequence_def split: option.splits if_splits)

text \<open>
  What \<^verbatim>\<open>_check_sequence\<close> does for each recorded value: without a sequence number it
  raises and changes nothing; with \<open>-1\<close> recorded it accepts and records any number; with
  any other value \<open>last_seq\<close> recorded it accepts exactly \<open>last_seq + 1\<close> and otherwise raises
  the sequence-gap error and leaves the manager unchanged. The scenario after it: first \<open>5\<close>
  is accepted, then \<open>7\<close> raises, then \<open>6\<close> is accepted, and a repeated \<open>5\<close> raises.
\<close>

lemma check_sequence_enforced:
  "check_sequence m channel None = (Some (MissingSequence channel), m) \<and>
   (channel \<in> {''orderbook_delta'', ''orderbook_snapshot'', ''trade''} \<longrightarrow>
      sequence_numbers OrderbookManager_init channel = Some (- 1)) \<and>
   (sequence_numbers m channel = Some (- 1) \<longrightarrow>
      check_sequence m channel (Some s) =
        (None, m\<lparr>sequence_numbers := (sequence_numbers m)(channel \<mapsto> s)\<rparr>)) \<and>
   (sequence_numbers m channel = Some last_seq \<and> last_seq \<noteq> - 1 \<longrightarrow>
      (fst (check_sequence m channel (Some s)) = None \<longleftrightarrow> s = last_seq + 1) \<and>
      (s = last_seq + 1 \<longrightarrow>
         check_sequence m channel (Some s) =
           (None, m\<lparr>sequence_numbers := (sequence_numbers m)(channel \<mapsto> s)\<rparr>)) \<and>
      (s \<noteq> last_seq + 1 \<longrightarrow>
         check_sequence m channel (Some s) = (Some (SequenceGap channel (last_seq + 1) s), m) \<and>
         check_sequence (snd (check_sequence m channel (Some s))) channel (Some (last_seq + 1)) =
           (None, m\<lparr>sequence_numbers := (sequence_numbers m)(channel \<mapsto> last_seq + 1)\<rparr>)))"
  by (auto simp: check_sequence_def OrderbookManager_init_def)

lemma check_sequence_scenario:
  "sequence_numbers OrderbookManager_init ''orderbook_delta'' = Some (- 1) \<and>
   check_sequence OrderbookManager_init ''orderbook_delta'' (Some 5) =
     (None, OrderbookManager_init\<lparr>sequence_numbers :=
              (sequence_numbers OrderbookManager_init)(''orderbook_delta'' \<mapsto> 5)\<rparr>) \<and>
   check_sequence
     (OrderbookManager_init\<lparr>sequence_numbers :=
        (sequence_numbers OrderbookManager_init)(''orderbook_delta'' \<mapsto> 5)\<rparr>)
     ''orderbook_delta'' (Some 7) =
     (Some (SequenceGap ''orderbook_delta'' 6 7),
      OrderbookManager_init\<lparr>sequence_numbers :=
        (sequence_numbers OrderbookManager_init)(''orderbook_delta'' \<mapsto> 5)\<rparr>) \<and>
   fst (check_sequence
     (OrderbookManager_init\<lparr>sequence_numbers :=
        (sequence_numbers OrderbookManager_init)(''orderbook_delta'' \<mapsto> 5)\<rparr>)
     ''orderbook_delta'' (Some 6)) = None \<and>
   fst (check_sequence
     (OrderbookManager_init\<lparr>sequence_numbers :=
        (sequence_numbers OrderbookManager_init)(''orderbook_delta'' \<mapsto> 5)\<rparr>)
     ''orderbook_delta'' (Some 5)) \<noteq> None"
proof -
  let ?m5 = "OrderbookManager_init\<lparr>sequence_numbers :=
        (sequence_numbers OrderbookManager_init)(''orderbook_delta'' \<mapsto> 5)\<rparr>"
  have a: "sequence_numbers OrderbookManager_init ''orderbook_delta'' = Some (- 1)"
    by (simp add: OrderbookManager_init_def)
  have b: "sequence_numbers ?m5 ''orderbook_delta'' = Some 5 \<and> (5::int) \<noteq> - 1"
    by simp
  show ?thesis
    using a b
      check_sequence_enforced [of OrderbookManager_init "''orderbook_delta''" 5]
      check_sequence_enforced [of ?m5 "''orderbook_delta''" 7 5]
      check_sequence_enforced [of ?m5 "''orderbook_delta''" 6 5]
      check_sequence_enforced [of ?m5 "''orderbook_delta''" 5 5]
    by simp
qed

subsection \<open>Flushing the pending messages\<close>

lemma serialize_sent: "serialize (s\<lparr>sent := x\<rparr>) = serialize s"
  by (rule ext) (simp add: serialize_def deref_def split: prod.splits dict_ref.splits)

lemma fold_publish:
  "should_publish s \<Longrightarrow> producer s \<Longrightarrow>
     fold (\<lambda>msg s. publish_to_kafka s (Some msg)) ms s = s\<lparr>sent := sent s @ map (serialize s) ms\<rparr>"
proof (induction ms arbitrary: s)
  case Nil
  then show ?case by simp
next
  case (Cons a ms)
  let ?s = "s\<lparr>sent := sent s @ [serialize s a]\<rparr>"
  from Cons.prems have step: "publish_to_kafka s (Some a) = ?s"
    by (simp add: publish_to_kafka_def)
  from Cons.prems have "should_publish ?s" "producer ?s" by simp_all
  from Cons.IH [OF this] show ?case
    by (simp add: step serialize_sent)
qed

lemma initialize_producer_flush:
  assumes "should_publish b" and "\<not> producer b"
  shows "initialize_producer b =
           b\<lparr>producer := True,
             sent := sent b @ map (serialize b) (pending_messages b),
             pending_messages := []\<rparr>"
proof -
  have s: "serialize (b\<lparr>producer := True\<rparr>) = serialize b"
    by (rule ext) (simp add: serialize_def deref_def split: prod.splits dict_ref.splits)
  show ?thesis
    using assms fold_publish [of "b\<lparr>producer := True\<rparr>" "pending_messages b"]
    by (simp add: initialize_producer_def Let_def s)
qed

section \<open>Claims\<close>

text \<open>
  Claim C3. A book built by the constructor from a snapshot, a book after \<^verbatim>\<open>_update_side\<close>
  returned, and a book after \<^verbatim>\<open>update\<close> returned all have a current cached best of book:
  \<open>best_yes\<close> is the entry of \<open>yes_levels\<close> with the highest price, \<open>best_no\<close> the entry
  of \<open>no_levels\<close> with the lowest price, and each is absent exactly when its dict is empty
  (\<open>top_of_book_ok\<close>).
\<close>

theorem best_of_book_never_stale:
  "(OrderBook_init d pub = Inr b \<longrightarrow> top_of_book_ok b) \<and>
   (update_side b0 sd pr dl = (None, b1) \<longrightarrow> top_of_book_ok b1) \<and>
   (update b0 msg = (None, b2) \<longrightarrow> top_of_book_ok b2)"
proof (intro conjI impI)
  assume "OrderBook_init d pub = Inr b"
  then show "top_of_book_ok b" using OrderBook_init_Inr by blast
next
  assume "update_side b0 sd pr dl = (None, b1)"
  then show "top_of_book_ok b1" using update_side_None by blast
next
  assume "update b0 msg = (None, b2)"
  then obtain sd' pr' dl' b' where "update_side b0 sd' pr' dl' = (None, b')"
    and b2: "b2 = publish_to_kafka b' None"
    using update_None by blast
  then have "top_of_book_ok b'" using update_side_None by blast
  then show "top_of_book_ok b2"
    by (simp add: b2 top_of_book_ok_def publish_to_kafka_frame)
qed

theorem best_of_book_never_stale_witness:
  "OrderBook_init example_snapshot True = Inr (example_book True) \<and>
   top_of_book_ok (example_book True) \<and>
   update (example_book True) (example_delta ''yes'' 42 (-3)) =
     (None, (example_book True)\<lparr>yes_levels := [(40, 10)], best_yes := Some (PriceLevel 40 10),
                                 pending_messages := [(''X'', OwnYes, OwnNo)]\<rparr>) \<and>
   top_of_book_ok ((example_book True)\<lparr>yes_levels := [(40, 10)], best_yes := Some (PriceLevel 40 10),
                                 pending_messages := [(''X'', OwnYes, OwnNo)]\<rparr>)"
proof -
  have i: "OrderBook_init example_snapshot True = Inr (example_book True)"
    by (simp add: eval_defs)
  have u: "update (example_book True) (example_delta ''yes'' 42 (-3)) =
     (None, (example_book True)\<lparr>yes_levels := [(40, 10)], best_yes := Some (PriceLevel 40 10),
                                 pending_messages := [(''X'', OwnYes, OwnNo)]\<rparr>)"
    by (simp add: eval_defs)
  show ?thesis
    using i u
      best_of_book_never_stale [where d = example_snapshot and pub = True
        and b = "example_book True" and ?b0.0 = "example_book True"
        and msg = "example_delta ''yes'' 42 (-3)"
        and ?b2.0 = "(example_book True)\<lparr>yes_levels := [(40, 10)],
                       best_yes := Some (PriceLevel 40 10),
                       pending_messages := [(''X'', OwnYes, OwnNo)]\<rparr>"]
    by simp
qed

text \<open>
  Claim C4. Neither side ever holds a quantity that is zero or negative. The dict
  comprehension of the constructor keeps only pairs of the snapshot with a positive
  quantity, so a book just built has positive quantities only. \<^verbatim>\<open>_update_side\<close> on a book
  with positive quantities leaves one with positive quantities, and when the new quantity is
  exactly zero the price is no longer a key of that side. \<^verbatim>\<open>update\<close> keeps the quantities
  positive whatever it returns.
\<close>

theorem no_nonpositive_quantity:
  "(\<forall>(p, q) \<in> set (levels_of xs). (p, q) \<in> set xs \<and> 0 < q) \<and>
   (OrderBook_init d pub = Inr b \<longrightarrow> levels_positive b) \<and>
   (levels_positive b0 \<and> update_side b0 sd pr dl = (None, b1) \<longrightarrow>
      levels_positive b1 \<and>
      (get_or_zero (side_levels b0 sd) pr + dl = 0 \<longrightarrow> pr \<notin> fst ` set (side_levels b1 sd))) \<and>
   (levels_positive b0 \<and> update b0 msg = (e, b2) \<longrightarrow> levels_positive b2)"
proof (intro conjI impI)
  show "\<forall>(p, q) \<in> set (levels_of xs). (p, q) \<in> set xs \<and> 0 < q"
    using levels_of_in_set by blast
next
  assume "OrderBook_init d pub = Inr b"
  then show "levels_positive b" by (rule OrderBook_init_positive)
next
  assume "levels_positive b0 \<and> update_side b0 sd pr dl = (None, b1)"
  then show "levels_positive b1" using update_side_positive by blast
next
  assume a: "levels_positive b0 \<and> update_side b0 sd pr dl = (None, b1)"
    and z: "get_or_zero (side_levels b0 sd) pr + dl = 0"
  from a have "update_side b0 sd pr dl = (None, b1)" by simp
  from update_side_None [OF this] z
  have "side_levels b1 sd = AList.delete pr (side_levels b0 sd)" by simp
  then show "pr \<notin> fst ` set (side_levels b1 sd)"
    by (simp add: delete_notin_dom)
next
  assume "levels_positive b0 \<and> update b0 msg = (e, b2)"
  then show "levels_positive b2" using update_positive by blast
qed

theorem no_nonpositive_quantity_witness:
  "levels_of [(40, 10), (41, 0), (42, - 5), (40, 7), (43, 2), (40, - 1)] = [(40, 7), (43, 2)] \<and>
   OrderBook_init example_snapshot True = Inr (example_book True) \<and>
   levels_positive (example_book True) \<and>
   update_side (example_book True) ''yes'' 42 (- 3) =
     (None, (example_book True)\<lparr>yes_levels := [(40, 10)], best_yes := Some (PriceLevel 40 10)\<rparr>) \<and>
   levels_positive ((example_book True)\<lparr>yes_levels := [(40, 10)], best_yes := Some (PriceLevel 40 10)\<rparr>) \<and>
   42 \<notin> fst ` set (side_levels ((example_book True)\<lparr>yes_levels := [(40, 10)], best_yes := Some (PriceLevel 40 10)\<rparr>) ''yes'')"
proof -
  have l: "levels_of [(40, 10), (41, 0), (42, - 5), (40, 7), (43, 2), (40, - 1)] = [(40, 7), (43, 2)]"
    by (simp add: levels_of_def)
  have i: "OrderBook_init example_snapshot True = Inr (example_book True)"
    by (simp add: eval_defs)
  have u: "update_side (example_book True) ''yes'' 42 (- 3) =
     (None, (example_book True)\<lparr>yes_levels := [(40, 10)], best_yes := Some (PriceLevel 40 10)\<rparr>)"
    by (simp add: eval_defs)
  have z: "get_or_zero (side_levels (example_book True) ''yes'') 42 + (- 3) = 0"
    by (simp add: eval_defs)
  show ?thesis
    using l i u z
      no_nonpositive_quantity [where d = example_snapshot and pub = True
        and b = "example_book True" and ?b0.0 = "example_book True"
        and sd = "''yes''" and pr = 42 and dl = "- 3"
        and ?b1.0 = "(example_book True)\<lparr>yes_levels := [(40, 10)], best_yes := Some (PriceLevel 40 10)\<rparr>"]
    by simp
qed

text \<open>
  Claim C6. For a book whose two dicts have distinct keys (as every Python dict has),
  \<^verbatim>\<open>get_book('yes')\<close> returns the yes levels as bids and, as offers, the no levels with
  each price \<open>p\<close> replaced by \<open>100 - p\<close> and the quantity kept; any other perspective
  returns the no levels and the transformed yes levels. The quantity at key \<open>100 - k\<close> of
  the offers is the quantity at \<open>k\<close> on the opposite side, applying \<open>100 - p\<close> to the keys of
  the offers gives back the opposite side's prices, and transforming the offers once more
  gives back the opposite side itself. \<^verbatim>\<open>get_book\<close> assigns to no attribute of the book:
  it is a function of the book and returns nothing but the view.
\<close>

theorem consolidated_book_complement:
  assumes "keys_distinct b"
  shows "get_book b ''yes'' = (yes_levels b, map (\<lambda>(p, q). (100 - p, q)) (no_levels b)) \<and>
         (sd \<noteq> ''yes'' \<longrightarrow>
            get_book b sd = (no_levels b, map (\<lambda>(p, q). (100 - p, q)) (yes_levels b))) \<and>
         map_of (snd (get_book b ''yes'')) (100 - k) = map_of (no_levels b) k \<and>
         map_of (snd (get_book b ''no'')) (100 - k) = map_of (yes_levels b) k \<and>
         (\<lambda>k. 100 - k) ` fst ` set (snd (get_book b ''yes'')) = fst ` set (no_levels b) \<and>
         (\<lambda>k. 100 - k) ` fst ` set (snd (get_book b ''no'')) = fst ` set (yes_levels b) \<and>
         map (\<lambda>(p, q). (100 - p, q)) (snd (get_book b ''yes'')) = no_levels b \<and>
         map (\<lambda>(p, q). (100 - p, q)) (snd (get_book b ''no'')) = yes_levels b"
proof -
  from assms have dy: "distinct (map fst (yes_levels b))" and dn: "distinct (map fst (no_levels b))"
    by (simp_all add: keys_distinct_def)
  have y: "get_book b ''yes'' = (yes_levels b, map (\<lambda>(p, q). (100 - p, q)) (no_levels b))"
    by (simp add: get_book_def offers_eq_map [OF dn])
  have n: "get_book b s = (no_levels b, map (\<lambda>(p, q). (100 - p, q)) (yes_levels b))"
    if "s \<noteq> ''yes''" for s
    using that by (simp add: get_book_def offers_eq_map [OF dy])
  have n': "get_book b ''no'' = (no_levels b, map (\<lambda>(p, q). (100 - p, q)) (yes_levels b))"
    by (rule n) simp
  show ?thesis
  proof (intro conjI)
    show "get_book b ''yes'' = (yes_levels b, map (\<lambda>(p, q). (100 - p, q)) (no_levels b))"
      by (rule y)
    show "sd \<noteq> ''yes'' \<longrightarrow>
            get_book b sd = (no_levels b, map (\<lambda>(p, q). (100 - p, q)) (yes_levels b))"
      using n by blast
    show "map_of (snd (get_book b ''yes'')) (100 - k) = map_of (no_levels b) k"
      unfolding y snd_conv by (rule map_of_complement)
    show "map_of (snd (get_book b ''no'')) (100 - k) = map_of (yes_levels b) k"
      unfolding n' snd_conv by (rule map_of_complement)
    show "(\<lambda>k. 100 - k) ` fst ` set (snd (get_book b ''yes'')) = fst ` set (no_levels b)"
      unfolding y snd_conv by (rule complement_key_set)
    show "(\<lambda>k. 100 - k) ` fst ` set (snd (get_book b ''no'')) = fst ` set (yes_levels b)"
      unfolding n' snd_conv by (rule complement_key_set)
    show "map (\<lambda>(p, q). (100 - p, q)) (snd (get_book b ''yes'')) = no_levels b"
      unfolding y snd_conv by (rule complement_twice)
    show "map (\<lambda>(p, q). (100 - p, q)) (snd (get_book b ''no'')) = yes_levels b"
      unfolding n' snd_conv by (rule complement_twice)
  qed
qed

theorem consolidated_book_complement_witness:
  "keys_distinct (example_book True) \<and>
   get_book (example_book True) ''yes'' = ([(40, 10), (42, 3)], [(45, 20), (40, 1)]) \<and>
   get_book (example_book True) ''no'' = ([(55, 20), (60, 1)], [(60, 10), (58, 3)]) \<and>
   map_of (snd (get_book (example_book True) ''yes'')) (100 - 55) = Some 20 \<and>
   (\<lambda>k. 100 - k) ` fst ` set (snd (get_book (example_book True) ''yes'')) = {55, 60}"
proof -
  have k: "keys_distinct (example_book True)"
    by (simp add: keys_distinct_def example_book_def)
  show ?thesis
    using k consolidated_book_complement [OF k, of "''no''" 55]
    by (simp add: example_book_def)
qed

text \<open>
  Claim C5. For a side that is \<^verbatim>\<open>'yes'\<close> or \<^verbatim>\<open>'no'\<close>, a delta that would make the quantity at
  the price negative (the current quantity being 0 when the price is absent) makes
  \<^verbatim>\<open>_update_side\<close> raise "Quantity cannot be negative" and leaves the book exactly as it
  was. \<^verbatim>\<open>update\<close> with such a message raises the same error with the book unchanged: the
  levels, the cached best levels, the pending list and the trace of sent records are the
  old ones, so nothing was published. The manager's \<^verbatim>\<open>_process_orderbook_delta\<close> on such a
  message leaves the manager unchanged as well.
\<close>

theorem negative_quantity_rejected:
  assumes "sd = ''yes'' \<or> sd = ''no''"
    and "get_or_zero (side_levels b sd) pr + dl < 0"
  shows "update_side b sd pr dl = (Some NegativeQuantity, b) \<and>
         (msg_side msg = Some sd \<and> msg_price msg = Some pr \<and> msg_delta msg = Some dl \<longrightarrow>
            update b msg = (Some NegativeQuantity, b)) \<and>
         (msg_side msg = Some sd \<and> msg_price msg = Some pr \<and> msg_delta msg = Some dl \<and>
          orderbooks m t = Some b \<longrightarrow>
            process_orderbook_delta m t msg = (Some NegativeQuantity, m))"
proof -
  have s: "update_side b sd pr dl = (Some NegativeQuantity, b)"
    using assms by (auto simp: update_side_def Let_def)
  have u: "update b msg = (Some NegativeQuantity, b)"
    if "msg_side msg = Some sd" "msg_price msg = Some pr" "msg_delta msg = Some dl"
    using that s assms(1) by (auto simp: update_def)
  have p: "process_orderbook_delta m t msg = (Some NegativeQuantity, m)"
    if "msg_side msg = Some sd" "msg_price msg = Some pr" "msg_delta msg = Some dl"
      "orderbooks m t = Some b"
  proof -
    have "(orderbooks m)(t \<mapsto> b) = orderbooks m"
      using that(4) by (simp add: map_upd_triv)
    then show ?thesis
      using u [OF that(1-3)] that(4) by (simp add: process_orderbook_delta_def)
  qed
  show ?thesis using s u p by blast
qed

theorem negative_quantity_rejected_witness:
  "get_or_zero (side_levels (example_book True) ''yes'') 42 + (- 4) < 0 \<and>
   update_side (example_book True) ''yes'' 42 (- 4) = (Some NegativeQuantity, example_book True) \<and>
   update (example_book True) (example_delta ''yes'' 42 (- 4)) =
     (Some NegativeQuantity, example_book True) \<and>
   get_or_zero (side_levels (example_book True) ''no'') 50 + (- 1) < 0 \<and>
   update (example_book True) (example_delta ''no'' 50 (- 1)) =
     (Some NegativeQuantity, example_book True)"
proof -
  have a: "get_or_zero (side_levels (example_book True) ''yes'') 42 + (- 4) < 0"
    by (simp add: get_or_zero_def side_levels_def example_book_def)
  have b: "get_or_zero (side_levels (example_book True) ''no'') 50 + (- 1) < 0"
    by (simp add: get_or_zero_def side_levels_def example_book_def)
  show ?thesis
    using a b
      negative_quantity_rejected [OF _ a, of "example_delta ''yes'' 42 (- 4)"]
      negative_quantity_rejected [OF _ b, of "example_delta ''no'' 50 (- 1)"]
    by (simp add: example_delta_def)
qed

text \<open>
  Claim C10, as stated, fails for a book that does not publish: a book built with
  \<^verbatim>\<open>publish_to_kafka=False\<close> (as \<^verbatim>\<open>from_kafka\<close> builds them) takes a zero delta on an absent
  price without error and without change, and \<^verbatim>\<open>_publish_to_kafka\<close> returns at its first
  test: no record is buffered and none is sent.
\<close>

theorem zero_delta_on_absent_price_silent_when_not_publishing:
  "OrderBook_init example_snapshot False = Inr (example_book False) \<and>
   update (example_book False) (example_delta ''yes'' 41 0) = (None, example_book False) \<and>
   pending_messages (example_book False) = [] \<and> sent (example_book False) = []"
  by (simp add: eval_defs)

text \<open>
  Claim C10, amended. For a book whose cached best of book is current, a side that is
  \<^verbatim>\<open>'yes'\<close> or \<^verbatim>\<open>'no'\<close> and a price that is not a key of that side, a delta of 0 is
  accepted and \<^verbatim>\<open>_update_side\<close> leaves the book as it was. If the book publishes,
  \<^verbatim>\<open>update\<close> then publishes once: with a producer attached it sends one record holding the
  unchanged ticker and levels, without a producer it appends one message to the pending
  list; nothing else of the book changes. If the book does not publish, \<^verbatim>\<open>update\<close> leaves
  it unchanged.
\<close>

theorem zero_delta_on_absent_price:
  assumes "sd = ''yes'' \<or> sd = ''no''"
    and "pr \<notin> fst ` set (side_levels b sd)"
    and "top_of_book_ok b"
    and "msg_side msg = Some sd" and "msg_price msg = Some pr" and "msg_delta msg = Some 0"
  shows "update_side b sd pr 0 = (None, b) \<and>
         (should_publish b \<and> producer b \<longrightarrow>
            update b msg = (None, b\<lparr>sent := sent b @ [(ticker b, yes_levels b, no_levels b)]\<rparr>)) \<and>
         (should_publish b \<and> \<not> producer b \<longrightarrow>
            update b msg =
              (None, b\<lparr>pending_messages := pending_messages b @ [(ticker b, OwnYes, OwnNo)]\<rparr>)) \<and>
         (\<not> should_publish b \<longrightarrow> update b msg = (None, b))"
proof -
  from assms(2) have "map_of (side_levels b sd) pr = None"
    by (simp add: map_of_eq_None_iff)
  then have z: "get_or_zero (side_levels b sd) pr + 0 = 0"
    by (simp add: get_or_zero_def)
  have del: "AList.delete pr (side_levels b sd) = side_levels b sd"
    using assms(2) by simp
  have s: "update_side b sd pr 0 = (None, b)"
  proof (cases "sd = ''yes''")
    case True
    with del have "b\<lparr>yes_levels := AList.delete pr (yes_levels b)\<rparr> = b"
      by (simp add: side_levels_def)
    with True z show ?thesis
      using top_of_book_ok_fixpoint [OF assms(3)] by (simp add: update_side_def)
  next
    case False
    with assms(1) have no: "sd = ''no''" by simp
    with del have "b\<lparr>no_levels := AList.delete pr (no_levels b)\<rparr> = b"
      by (simp add: side_levels_def)
    with no z show ?thesis
      using top_of_book_ok_fixpoint [OF assms(3)] by (simp add: update_side_def)
  qed
  from assms(1) have ne: "sd \<noteq> []" by auto
  have u: "update b msg = (None, publish_to_kafka b None)"
    using s ne assms(4-6) by (simp add: update_def)
  show ?thesis
    using s u by (simp add: publish_to_kafka_def serialize_def deref_def current_state_def)
qed

theorem zero_delta_on_absent_price_witness:
  "top_of_book_ok (example_book True) \<and>
   41 \<notin> fst ` set (side_levels (example_book True) ''yes'') \<and>
   update (example_book True) (example_delta ''yes'' 41 0) =
     (None, (example_book True)\<lparr>pending_messages := [(''X'', OwnYes, OwnNo)]\<rparr>) \<and>
   update ((example_book True)\<lparr>producer := True\<rparr>) (example_delta ''no'' 41 0) =
     (None, (example_book True)\<lparr>producer := True,
               sent := [(''X'', [(40, 10), (42, 3)], [(55, 20), (60, 1)])]\<rparr>)"
proof -
  have t: "top_of_book_ok (example_book True)"
    by (simp add: top_of_book_ok_def is_top_def example_book_def)
  have t': "top_of_book_ok ((example_book True)\<lparr>producer := True\<rparr>)"
    by (simp add: top_of_book_ok_def is_top_def example_book_def)
  have a: "41 \<notin> fst ` set (side_levels (example_book True) ''yes'')"
    by (simp add: side_levels_def example_book_def)
  have a': "41 \<notin> fst ` set (side_levels ((example_book True)\<lparr>producer := True\<rparr>) ''no'')"
    by (simp add: side_levels_def example_book_def)
  show ?thesis
    using t a
      zero_delta_on_absent_price [OF _ a t, of "example_delta ''yes'' 41 0"]
      zero_delta_on_absent_price [OF _ a' t', of "example_delta ''no'' 41 0"]
    by (simp add: example_delta_def example_book_def)
qed

text \<open>
  Claim C1. Take a message on the channel \<^verbatim>\<open>'orderbook_snapshot'\<close> or \<^verbatim>\<open>'orderbook_delta'\<close>.
  If \<^verbatim>\<open>process_message\<close> raises the sequence-gap error, then the message had a payload with a
  ticker \<open>t\<close>, the payload handler (\<^verbatim>\<open>_process_orderbook_snapshot\<close> or
  \<^verbatim>\<open>_process_orderbook_delta\<close>) had returned without error, and the manager that
  \<^verbatim>\<open>process_message\<close> leaves is the one the handler left, with the recorded sequence numbers
  unchanged: the check ran on it, failed, and undid nothing. What the handler left is spelled
  out. On the snapshot channel the constructor has built a book from the payload and the
  manager holds that book, its producer attached, under \<open>t\<close>. On the delta channel the book
  that was stored under \<open>t\<close> has been updated by the payload and the manager holds the
  updated book under \<open>t\<close>. In general, when the handler returns without error,
  \<^verbatim>\<open>process_message\<close> is the sequence check on the manager the handler left; when the handler
  raises, \<^verbatim>\<open>process_message\<close> raises that error and the recorded sequence numbers are the old
  ones: the check did not run.
\<close>

theorem sequence_checked_after_payload:
  assumes "msg_type msg = Some channel"
    and "channel = ''orderbook_snapshot'' \<or> channel = ''orderbook_delta''"
  shows "(process_message m msg = (Some (SequenceGap c e g), m') \<longrightarrow>
           (\<exists>content t.
              msg_msg msg = Some content \<and> msg_market_ticker content = Some t \<and>
              (if channel = ''orderbook_snapshot''
               then process_orderbook_snapshot m t content
               else process_orderbook_delta m t content) = (None, m') \<and>
              check_sequence m' channel (msg_seq msg) = (Some (SequenceGap c e g), m') \<and>
              sequence_numbers m' = sequence_numbers m \<and>
              (channel = ''orderbook_snapshot'' \<longrightarrow>
                 (\<exists>book. OrderBook_init content True = Inr book \<and>
                    orderbooks m' t = Some (initialize_producer book) \<and>
                    m' = m\<lparr>orderbooks := (orderbooks m)(t \<mapsto> initialize_producer book)\<rparr>)) \<and>
              (channel = ''orderbook_delta'' \<longrightarrow>
                 (\<exists>ob ob'. orderbooks m t = Some ob \<and> update ob content = (None, ob') \<and>
                    orderbooks m' t = Some ob' \<and>
                    m' = m\<lparr>orderbooks := (orderbooks m)(t \<mapsto> ob')\<rparr>)))) \<and>
         (msg_msg msg = Some content \<and> msg_market_ticker content = Some t \<and>
          (if channel = ''orderbook_snapshot''
           then process_orderbook_snapshot m t content
           else process_orderbook_delta m t content) = (None, m1) \<longrightarrow>
            process_message m msg = check_sequence m1 channel (msg_seq msg)) \<and>
         (msg_msg msg = Some content \<and> msg_market_ticker content = Some t \<and>
          (if channel = ''orderbook_snapshot''
           then process_orderbook_snapshot m t content
           else process_orderbook_delta m t content) = (Some err, m1) \<longrightarrow>
            process_message m msg = (Some err, m1) \<and>
            sequence_numbers m1 = sequence_numbers m)"
proof (intro conjI impI)
  assume a: "process_message m msg = (Some (SequenceGap c e g), m')"
  from assms have ne: "channel \<noteq> []" by auto
  from a assms ne obtain content where c: "msg_msg msg = Some content"
    by (cases "msg_msg msg") (auto simp: process_message_def empty_content_def)
  from a assms ne c obtain t where t: "msg_market_ticker content = Some t"
    by (cases "msg_market_ticker content") (auto simp: process_message_def)
  let ?payload = "if channel = ''orderbook_snapshot''
               then process_orderbook_snapshot m t content
               else process_orderbook_delta m t content"
  obtain r m1 where p: "?payload = (r, m1)" by (cases ?payload)
  have r: "r = None"
  proof (cases r)
    case None
    then show ?thesis .
  next
    case (Some x)
    with a assms ne c t p have "x = SequenceGap c e g"
      by (auto simp: process_message_def split: if_splits)
    with Some p show ?thesis
      using payload_never_sequence_error [of m t content x m1]
      by (auto split: if_splits)
  qed
  from a assms ne c t p r
  have k: "check_sequence m1 channel (msg_seq msg) = (Some (SequenceGap c e g), m')"
    by (auto simp: process_message_def split: if_splits)
  then have eq: "m' = m1" by (rule check_sequence_failed)
  have snap: "\<exists>book. OrderBook_init content True = Inr book \<and>
                    orderbooks m' t = Some (initialize_producer book) \<and>
                    m' = m\<lparr>orderbooks := (orderbooks m)(t \<mapsto> initialize_producer book)\<rparr>"
    if "channel = ''orderbook_snapshot''"
    using that p r eq
    by (auto simp: process_orderbook_snapshot_def split: sum.splits)
  have dlt: "\<exists>ob ob'. orderbooks m t = Some ob \<and> update ob content = (None, ob') \<and>
                    orderbooks m' t = Some ob' \<and>
                    m' = m\<lparr>orderbooks := (orderbooks m)(t \<mapsto> ob')\<rparr>"
    if "channel = ''orderbook_delta''"
    using that p r eq
    by (auto simp: process_orderbook_delta_def split: option.splits prod.splits)
  have sq: "sequence_numbers m' = sequence_numbers m"
    using assms(2) snap dlt by auto
  from c t p r k eq snap dlt sq
  show "\<exists>content t.
              msg_msg msg = Some content \<and> msg_market_ticker content = Some t \<and>
              (if channel = ''orderbook_snapshot''
               then process_orderbook_snapshot m t content
               else process_orderbook_delta m t content) = (None, m') \<and>
              check_sequence m' channel (msg_seq msg) = (Some (SequenceGap c e g), m') \<and>
              sequence_numbers m' = sequence_numbers m \<and>
              (channel = ''orderbook_snapshot'' \<longrightarrow>
                 (\<exists>book. OrderBook_init content True = Inr book \<and>
                    orderbooks m' t = Some (initialize_producer book) \<and>
                    m' = m\<lparr>orderbooks := (orderbooks m)(t \<mapsto> initialize_producer book)\<rparr>)) \<and>
              (channel = ''orderbook_delta'' \<longrightarrow>
                 (\<exists>ob ob'. orderbooks m t = Some ob \<and> update ob content = (None, ob') \<and>
                    orderbooks m' t = Some ob' \<and>
                    m' = m\<lparr>orderbooks := (orderbooks m)(t \<mapsto> ob')\<rparr>))"
    by (intro exI [of _ content] exI [of _ t]) simp
next
  assume b: "msg_msg msg = Some content \<and> msg_market_ticker content = Some t \<and>
          (if channel = ''orderbook_snapshot''
           then process_orderbook_snapshot m t content
           else process_orderbook_delta m t content) = (None, m1)"
  from assms have ne: "channel \<noteq> []" by auto
  from b assms ne show "process_message m msg = check_sequence m1 channel (msg_seq msg)"
    by (auto simp: process_message_def)
next
  assume b: "msg_msg msg = Some content \<and> msg_market_ticker content = Some t \<and>
          (if channel = ''orderbook_snapshot''
           then process_orderbook_snapshot m t content
           else process_orderbook_delta m t content) = (Some err, m1)"
  from assms have ne: "channel \<noteq> []" by auto
  from b assms ne show "process_message m msg = (Some err, m1)"
    by (auto simp: process_message_def)
next
  assume b: "msg_msg msg = Some content \<and> msg_market_ticker content = Some t \<and>
          (if channel = ''orderbook_snapshot''
           then process_orderbook_snapshot m t content
           else process_orderbook_delta m t content) = (Some err, m1)"
  then show "sequence_numbers m1 = sequence_numbers m"
    using payload_never_sequence_error [of m t content err m1]
    by (auto split: if_splits)
qed

theorem sequence_checked_after_payload_witness:
  "process_message example_manager (envelope ''orderbook_delta'' 12 (example_delta ''yes'' 42 (- 3))) =
     (Some (SequenceGap ''orderbook_delta'' 11 12),
      example_manager\<lparr>orderbooks := [''X'' \<mapsto> example_book_after]\<rparr>) \<and>
   process_orderbook_delta example_manager ''X'' (example_delta ''yes'' 42 (- 3)) =
     (None, example_manager\<lparr>orderbooks := [''X'' \<mapsto> example_book_after]\<rparr>) \<and>
   orderbooks example_manager ''X'' \<noteq> Some example_book_after \<and>
   process_message example_manager (envelope ''orderbook_snapshot'' 9 other_snapshot) =
     (Some (SequenceGap ''orderbook_snapshot'' 5 9),
      example_manager\<lparr>orderbooks := (orderbooks example_manager)(''Y'' \<mapsto> other_book)\<rparr>) \<and>
   process_orderbook_snapshot example_manager ''Y'' other_snapshot =
     (None, example_manager\<lparr>orderbooks := (orderbooks example_manager)(''Y'' \<mapsto> other_book)\<rparr>) \<and>
   OrderBook_init other_snapshot True = Inr (other_book\<lparr>producer := False\<rparr>) \<and>
   initialize_producer (other_book\<lparr>producer := False\<rparr>) = other_book \<and>
   orderbooks example_manager ''Y'' = None"
proof -
  let ?msg = "envelope ''orderbook_delta'' 12 (example_delta ''yes'' 42 (- 3))"
  let ?m' = "example_manager\<lparr>orderbooks := [''X'' \<mapsto> example_book_after]\<rparr>"
  let ?snap = "envelope ''orderbook_snapshot'' 9 other_snapshot"
  let ?s' = "example_manager\<lparr>orderbooks := (orderbooks example_manager)(''Y'' \<mapsto> other_book)\<rparr>"
  have t: "msg_type ?msg = Some ''orderbook_delta''"
    by (simp add: envelope_def)
  have p: "process_message example_manager ?msg = (Some (SequenceGap ''orderbook_delta'' 11 12), ?m')"
    by (simp add: manager_defs eval_defs example_book_after_def)
  have n: "orderbooks example_manager ''X'' \<noteq> Some example_book_after"
    by (simp add: example_manager_def example_book_def example_book_after_def)
  from sequence_checked_after_payload [OF t, of example_manager "''orderbook_delta''" 11 12 ?m'] p
  have d: "process_orderbook_delta example_manager ''X'' (example_delta ''yes'' 42 (- 3)) = (None, ?m')"
    by (auto simp: envelope_def example_delta_def)
  have ts: "msg_type ?snap = Some ''orderbook_snapshot''"
    by (simp add: envelope_def)
  have i: "OrderBook_init other_snapshot True = Inr (other_book\<lparr>producer := False\<rparr>)"
    by (simp add: eval_defs other_snapshot_def other_book_def)
  have ip: "initialize_producer (other_book\<lparr>producer := False\<rparr>) = other_book"
    by (simp add: initialize_producer_def other_book_def)
  have ps: "process_message example_manager ?snap =
              (Some (SequenceGap ''orderbook_snapshot'' 5 9), ?s')"
  proof -
    have mt: "msg_market_ticker other_snapshot = Some ''Y''"
      by (simp add: other_snapshot_def)
    have sq: "sequence_numbers example_manager ''orderbook_snapshot'' = Some 4"
      by (simp add: example_manager_def)
    show ?thesis
      by (simp add: process_message_def process_orderbook_snapshot_def check_sequence_def
            envelope_def i ip mt sq)
  qed
  from sequence_checked_after_payload [OF ts, of example_manager "''orderbook_snapshot''" 5 9 ?s'] ps
  have s: "process_orderbook_snapshot example_manager ''Y'' other_snapshot = (None, ?s')"
    by (auto simp: envelope_def other_snapshot_def)
  have y: "orderbooks example_manager ''Y'' = None"
    by (simp add: example_manager_def)
  from p d n ps s i ip y show ?thesis by simp
qed

text \<open>
  Claim C2. Only the first sequence number on a channel is to be accepted unconditionally;
  after it, a number other than the recorded one plus one is a gap. The code breaks this
  when the number recorded is \<open>-1\<close>, the value it also uses for "none seen yet". On a new
  manager, a trade message with sequence number \<open>-1\<close> is accepted and \<open>-1\<close> is recorded;
  the next trade message, with sequence number \<open>5\<close>, is accepted although \<open>5\<close> is not
  \<open>-1 + 1\<close>. Any other recorded value is enforced, negative ones too: after \<open>-5\<close>, the
  number \<open>-2\<close> raises the sequence-gap error (expected \<open>-4\<close>).
\<close>

theorem recorded_minus_one_accepts_any_next:
  "fst (check_sequence OrderbookManager_init ''trade'' (Some (- 1))) = None \<and>
   sequence_numbers (snd (check_sequence OrderbookManager_init ''trade'' (Some (- 1)))) ''trade''
     = Some (- 1) \<and>
   fst (check_sequence (snd (check_sequence OrderbookManager_init ''trade'' (Some (- 1))))
          ''trade'' (Some 5)) = None \<and>
   (5 :: int) \<noteq> - 1 + 1 \<and>
   fst (process_message OrderbookManager_init
          (envelope ''trade'' (- 1) (example_delta ''yes'' 40 1))) = None \<and>
   fst (process_message
          (snd (process_message OrderbookManager_init
                  (envelope ''trade'' (- 1) (example_delta ''yes'' 40 1))))
          (envelope ''trade'' 5 (example_delta ''yes'' 40 1))) = None \<and>
   fst (check_sequence OrderbookManager_init ''trade'' (Some (- 5))) = None \<and>
   fst (check_sequence (snd (check_sequence OrderbookManager_init ''trade'' (Some (- 5))))
          ''trade'' (Some (- 2))) = Some (SequenceGap ''trade'' (- 4) (- 2))"
  by (simp add: process_message_def check_sequence_def OrderbookManager_init_def
        envelope_def example_delta_def)

text \<open>
  Claim C7, as stated, fails for a payload without ticker: a snapshot and a delta whose
  payload has no \<^verbatim>\<open>'market_ticker'\<close> are processed without error and without any change of
  the manager.
\<close>

theorem missing_ticker_is_ignored:
  "process_message OrderbookManager_init
     (envelope ''orderbook_snapshot'' 1 (example_snapshot\<lparr>msg_market_ticker := None\<rparr>)) =
     (None, OrderbookManager_init) \<and>
   process_message example_manager
     (envelope ''orderbook_delta'' 11 ((example_delta ''yes'' 42 (- 3))\<lparr>msg_market_ticker := None\<rparr>)) =
     (None, example_manager)"
  by (simp add: process_message_def envelope_def example_snapshot_def example_delta_def)

text \<open>
  Claim C7, amended. A message whose type is absent or empty makes \<^verbatim>\<open>process_message\<close>
  raise "No message type / channel specified" and leaves the manager unchanged. A message
  with a type whose payload is absent or has no ticker is not an error: \<^verbatim>\<open>process_message\<close>
  returns normally and leaves the manager unchanged (no book is built or changed, no
  sequence number is checked or recorded).
\<close>

theorem malformed_message:
  "(msg_type msg = None \<or> msg_type msg = Some [] \<longrightarrow>
      process_message m msg = (Some MalformedMessage, m)) \<and>
   (msg_type msg = Some channel \<and> channel \<noteq> [] \<and>
    (msg_msg msg = None \<or> (\<exists>c. msg_msg msg = Some c \<and> msg_market_ticker c = None)) \<longrightarrow>
      process_message m msg = (None, m))"
  by (auto simp: process_message_def empty_content_def)

theorem malformed_message_witness:
  "process_message example_manager \<lparr>msg_type = None, msg_seq = Some 11, msg_msg = Some example_snapshot\<rparr>
     = (Some MalformedMessage, example_manager) \<and>
   process_message example_manager \<lparr>msg_type = Some [], msg_seq = Some 11, msg_msg = Some example_snapshot\<rparr>
     = (Some MalformedMessage, example_manager) \<and>
   process_message example_manager \<lparr>msg_type = Some ''orderbook_snapshot'', msg_seq = Some 5, msg_msg = None\<rparr>
     = (None, example_manager) \<and>
   process_message example_manager
     (envelope ''orderbook_delta'' 11 ((example_delta ''yes'' 42 (- 3))\<lparr>msg_market_ticker := None\<rparr>))
     = (None, example_manager)"
  using
    malformed_message [of "\<lparr>msg_type = None, msg_seq = Some 11, msg_msg = Some example_snapshot\<rparr>"
       example_manager]
    malformed_message [of "\<lparr>msg_type = Some [], msg_seq = Some 11, msg_msg = Some example_snapshot\<rparr>"
       example_manager]
    malformed_message [of "\<lparr>msg_type = Some ''orderbook_snapshot'', msg_seq = Some 5, msg_msg = None\<rparr>"
       example_manager "''orderbook_snapshot''"]
    malformed_message [of "envelope ''orderbook_delta'' 11 ((example_delta ''yes'' 42 (- 3))\<lparr>msg_market_ticker := None\<rparr>)"
       example_manager "''orderbook_delta''"]
  by (simp add: envelope_def example_delta_def)

text \<open>
  Claim C9. On a channel whose recorded value is still the initial \<open>-1\<close>, a check with
  sequence number \<open>-1\<close> succeeds and records \<open>-1\<close>; the next check on that channel then
  succeeds with any sequence number \<open>s\<close> and records it.
\<close>

theorem first_sequence_minus_one_disables_check:
  assumes "sequence_numbers m channel = Some (- 1)"
  shows "fst (check_sequence m channel (Some (- 1))) = None \<and>
         sequence_numbers (snd (check_sequence m channel (Some (- 1)))) channel = Some (- 1) \<and>
         check_sequence (snd (check_sequence m channel (Some (- 1)))) channel (Some s) =
           (None, m\<lparr>sequence_numbers := (sequence_numbers m)(channel \<mapsto> s)\<rparr>)"
  using assms by (simp add: check_sequence_def)

theorem first_sequence_minus_one_disables_check_witness:
  "sequence_numbers OrderbookManager_init ''orderbook_delta'' = Some (- 1) \<and>
   fst (check_sequence OrderbookManager_init ''orderbook_delta'' (Some (- 1))) = None \<and>
   fst (check_sequence (snd (check_sequence OrderbookManager_init ''orderbook_delta'' (Some (- 1))))
          ''orderbook_delta'' (Some 42)) = None \<and>
   sequence_numbers
     (snd (check_sequence (snd (check_sequence OrderbookManager_init ''orderbook_delta'' (Some (- 1))))
          ''orderbook_delta'' (Some 42))) ''orderbook_delta'' = Some 42"
proof -
  have a: "sequence_numbers OrderbookManager_init ''orderbook_delta'' = Some (- 1)"
    by (simp add: OrderbookManager_init_def)
  show ?thesis
    using a first_sequence_minus_one_disables_check [OF a, of 42] by simp
qed

text \<open>
  Claim C8. The pending messages are sent in list order when the producer is attached and
  none is skipped (lemma \<open>initialize_producer_flush\<close>), but each is read when it is sent,
  and a pending message holds the book's own two dicts. On the example book without
  producer, the delta \<^verbatim>\<open>yes 42 -3\<close> publishes the state whose no side is \<open>55: 20, 60: 1\<close>
  and the delta \<^verbatim>\<open>no 55 +5\<close> then publishes the state whose no side is \<open>55: 25, 60: 1\<close>;
  attaching the producer sends the second state twice. The record the first update published is not
  among the records sent.
\<close>

theorem buffered_records_read_at_flush:
  "update (example_book True) (example_delta ''yes'' 42 (- 3)) = (None, buffered_once) \<and>
   serialize buffered_once (current_state buffered_once) =
     (''X'', [(40, 10)], [(55, 20), (60, 1)]) \<and>
   update buffered_once (example_delta ''no'' 55 5) = (None, buffered_twice) \<and>
   serialize buffered_twice (current_state buffered_twice) =
     (''X'', [(40, 10)], [(55, 25), (60, 1)]) \<and>
   sent (initialize_producer buffered_twice) =
     [(''X'', [(40, 10)], [(55, 25), (60, 1)]), (''X'', [(40, 10)], [(55, 25), (60, 1)])] \<and>
   sent (initialize_producer buffered_twice) \<noteq>
     [(''X'', [(40, 10)], [(55, 20), (60, 1)]), (''X'', [(40, 10)], [(55, 25), (60, 1)])]"
  by (simp add: eval_defs buffered_once_def buffered_twice_def)

end
